theory Spec2Isabelle
  imports Complex_Main "HOL-Library.Word"
begin

section \<open>Strings\<close>

text \<open>
  A JavaScript string is a sequence of UTF-16 code units, and \<open>length\<close>, the regular
  expressions and \<open>trim\<close> of the source all work on code units. A string literal of the
  source is written \<open>js ''...''\<close>.
\<close>

type_synonym jschar = "16 word"
type_synonym jsstring = "jschar list"

definition js :: "string \<Rightarrow> jsstring" where
  "js s = map of_char s"

definition nl :: jsstring where
  "nl = [10]"

text \<open>
  The class \<open>\s\<close> of a regular expression and the characters removed by \<open>trim\<close>:
  the white space and line terminator code points of ECMAScript.
\<close>

definition isWhiteSpace :: "jschar \<Rightarrow> bool" where
  "isWhiteSpace c =
     (c \<in> {9, 10, 11, 12, 13, 32, 160, 5760, 8232, 8233, 8239, 8287, 12288, 65279}
      \<or> (8192 \<le> c \<and> c \<le> 8202))"

definition trim :: "jsstring \<Rightarrow> jsstring" where
  "trim s = rev (dropWhile isWhiteSpace (rev (dropWhile isWhiteSpace s)))"

text \<open>
  \<open>toLowerCase\<close> on the ASCII letters; \<open>String.prototype.toLowerCase\<close> also maps
  letters outside ASCII. The literals that the source compares lower-cased strings with
  are ASCII, and no code unit outside ASCII maps to one of their letters, so every such
  comparison comes out as in the source. The lower-cased string itself is the one of the
  source for ASCII strings only.
\<close>

definition lowerChar :: "jschar \<Rightarrow> jschar" where
  "lowerChar c = (if 65 \<le> c \<and> c \<le> 90 then c + 32 else c)"

definition toLowerCase :: "jsstring \<Rightarrow> jsstring" where
  "toLowerCase s = map lowerChar s"

section \<open>Format catalog\<close>

datatype ConversionFormat = PDF | DOCX | TXT | RTF | ODT

fun formatName :: "ConversionFormat \<Rightarrow> jsstring" where
  "formatName PDF = js ''PDF''"
| "formatName DOCX = js ''Word Document (DOCX)''"
| "formatName TXT = js ''Text File (TXT)''"
| "formatName RTF = js ''Rich Text (RTF)''"
| "formatName ODT = js ''OpenDocument Text (ODT)''"

definition formatOptions :: "ConversionFormat list" where
  "formatOptions = [PDF, DOCX, TXT, RTF, ODT]"

fun getExtension :: "ConversionFormat \<Rightarrow> jsstring" where
  "getExtension DOCX = js ''docx''"
| "getExtension PDF = js ''pdf''"
| "getExtension TXT = js ''txt''"
| "getExtension RTF = js ''rtf''"
| "getExtension ODT = js ''odt''"

fun getMimeType :: "ConversionFormat \<Rightarrow> jsstring" where
  "getMimeType DOCX = js ''application/vnd.openxmlformats-officedocument.wordprocessingml.document''"
| "getMimeType PDF = js ''application/pdf''"
| "getMimeType TXT = js ''text/plain''"
| "getMimeType RTF = js ''application/rtf''"
| "getMimeType ODT = js ''application/vnd.oasis.opendocument.text''"

section \<open>Format selection in the page\<close>

text \<open>
  The two format selections of \<open>ConvertPage\<close>. An event handler updates the state, the
  component renders, and the effect declared with \<open>useEffect\<close> on
  \<open>[sourceFormat, targetFormat, formatOptions]\<close> runs before the next event is handled.
\<close>

record selection =
  sourceFormat :: ConversionFormat
  targetFormat :: ConversionFormat

definition initialSelection :: selection where
  "initialSelection = \<lparr>sourceFormat = DOCX, targetFormat = PDF\<rparr>"

text \<open>\<open>name.split('.').pop()\<close>: the part of the name after its last dot.\<close>

definition lastSegment :: "jsstring \<Rightarrow> jsstring" where
  "lastSegment name = rev (takeWhile (\<lambda>c. c \<noteq> 46) (rev name))"

definition detectFormat :: "jsstring \<Rightarrow> ConversionFormat option" where
  "detectFormat name =
     (let extension = toLowerCase (lastSegment name) in
      if extension = js ''pdf'' then Some PDF
      else if extension = js ''docx'' \<or> extension = js ''doc'' then Some DOCX
      else if extension = js ''txt'' then Some TXT
      else if extension = js ''rtf'' then Some RTF
      else if extension = js ''odt'' then Some ODT
      else None)"

text \<open>\<open>files\<close> is the list of the names of the selected files (\<open>null\<close> is the empty list).\<close>

fun handleFilesSelected :: "jsstring list \<Rightarrow> selection \<Rightarrow> selection" where
  "handleFilesSelected [] s = s"
| "handleFilesSelected (selectedFile # _) s =
     (case detectFormat selectedFile of
        None \<Rightarrow> s
      | Some detected \<Rightarrow>
          \<lparr>sourceFormat = detected,
           targetFormat =
             (if targetFormat s = detected
              then (if detected = PDF then DOCX else PDF)
              else targetFormat s)\<rparr>)"

datatype ui_event =
    SelectSource ConversionFormat
  | SelectTarget ConversionFormat
  | FilesSelected "jsstring list"

fun handler :: "ui_event \<Rightarrow> selection \<Rightarrow> selection" where
  "handler (SelectSource f) s = s\<lparr>sourceFormat := f\<rparr>"
| "handler (SelectTarget f) s = s\<lparr>targetFormat := f\<rparr>"
| "handler (FilesSelected files) s = handleFilesSelected files s"

text \<open>The effect: \<open>formatOptions.find((f) => f !== sourceFormat) || 'PDF'\<close>.\<close>

definition ensureDistinct :: "selection \<Rightarrow> selection" where
  "ensureDistinct s =
     (if targetFormat s = sourceFormat s
      then s\<lparr>targetFormat :=
                (case find (\<lambda>f. f \<noteq> sourceFormat s) formatOptions of
                   Some firstAlt \<Rightarrow> firstAlt
                 | None \<Rightarrow> PDF)\<rparr>
      else s)"

definition step :: "selection \<Rightarrow> ui_event \<Rightarrow> selection" where
  "step s e = ensureDistinct (handler e s)"

definition run :: "ui_event list \<Rightarrow> selection" where
  "run es = foldl step (ensureDistinct initialSelection) es"


section \<open>Pattern matching\<close>

text \<open>
  The regular expressions of the source, each as a function that says how many characters
  the expression matches at the start of its input, and what its group captures. Every
  expression of the source matches at least one character, and all of them search from
  left to right for matches that do not overlap.
\<close>

definition isLineTerminator :: "jschar \<Rightarrow> bool" where
  "isLineTerminator c = (c \<in> {10, 13, 8232, 8233})"

definition isDigit :: "jschar \<Rightarrow> bool" where
  "isDigit c = (48 \<le> c \<and> c \<le> 57)"

definition isLetter :: "jschar \<Rightarrow> bool" where
  "isLetter c = ((65 \<le> c \<and> c \<le> 90) \<or> (97 \<le> c \<and> c \<le> 122))"

definition isAlnum :: "jschar \<Rightarrow> bool" where
  "isAlnum c = (isLetter c \<or> isDigit c)"

definition isHex :: "jschar \<Rightarrow> bool" where
  "isHex c = (isDigit c \<or> (97 \<le> c \<and> c \<le> 102) \<or> (65 \<le> c \<and> c \<le> 70))"

definition startsWith :: "jsstring \<Rightarrow> jsstring \<Rightarrow> bool" where
  "startsWith p s = (take (length p) s = p)"

definition endsWith :: "jsstring \<Rightarrow> jsstring \<Rightarrow> bool" where
  "endsWith p s = startsWith (rev p) (rev s)"

type_synonym matcher = "jsstring \<Rightarrow> (nat \<times> jsstring) option"

fun replaceAll :: "matcher \<Rightarrow> jsstring \<Rightarrow> jsstring \<Rightarrow> jsstring" where
  "replaceAll m r [] = []"
| "replaceAll m r (c # cs) =
     (case m (c # cs) of
        Some (Suc n, g) \<Rightarrow> r @ replaceAll m r (drop n cs)
      | _ \<Rightarrow> c # replaceAll m r cs)"

fun matchAll :: "matcher \<Rightarrow> jsstring \<Rightarrow> jsstring list" where
  "matchAll m [] = []"
| "matchAll m (c # cs) =
     (case m (c # cs) of
        Some (Suc n, g) \<Rightarrow> g # matchAll m (drop n cs)
      | _ \<Rightarrow> matchAll m cs)"

text \<open>\<open>[^c]*c\<close>: the number of characters up to the first \<open>c\<close>, that one included.\<close>

definition upTo :: "jschar \<Rightarrow> jsstring \<Rightarrow> nat option" where
  "upTo c s =
     (let a = takeWhile (\<lambda>x. x \<noteq> c) s in
      if length a < length s then Some (Suc (length a)) else None)"

text \<open>\<open>X*?lit\<close>: the shortest run of characters of the class \<open>X\<close> that \<open>lit\<close> follows.\<close>

fun lazyUntil :: "(jschar \<Rightarrow> bool) \<Rightarrow> jsstring \<Rightarrow> jsstring \<Rightarrow> jsstring option" where
  "lazyUntil X lit [] = (if lit = [] then Some [] else None)"
| "lazyUntil X lit (c # cs) =
     (if startsWith lit (c # cs) then Some []
      else if X c then map_option ((#) c) (lazyUntil X lit cs)
      else None)"

definition optional :: "jschar \<Rightarrow> jsstring \<Rightarrow> nat" where
  "optional c s = (if startsWith [c] s then 1 else 0)"

definition bs :: jschar where
  "bs = 92"

text \<open>\<open>/\\par[d]?/\<close>\<close>

definition rxPar :: matcher where
  "rxPar s =
     (if startsWith (bs # js ''par'') s then Some (4 + optional 100 (drop 4 s), [])
      else None)"

text \<open>\<open>/\\'[0-9a-fA-F]{2}/\<close>\<close>

definition rxHexEscape :: matcher where
  "rxHexEscape s =
     (case s of
        a # b # h1 # h2 # _ \<Rightarrow>
          if a = bs \<and> b = 39 \<and> isHex h1 \<and> isHex h2 then Some (4, []) else None
      | _ \<Rightarrow> None)"

text \<open>\<open>/\\u-?\d+\??/\<close>\<close>

definition rxUnicodeEscape :: matcher where
  "rxUnicodeEscape s =
     (if startsWith [bs, 117] s then
        (let r = drop 2 s;
             sign = optional 45 r;
             d = length (takeWhile isDigit (drop sign r));
             q = optional 63 (drop (sign + d) r)
         in if d = 0 then None else Some (2 + sign + d + q, []))
      else None)"

text \<open>\<open>/\\[a-zA-Z]+-?\d* ?/\<close>\<close>

definition rxControlWord :: matcher where
  "rxControlWord s =
     (if startsWith [bs] s then
        (let r = drop 1 s;
             l = length (takeWhile isLetter r);
             sign = optional 45 (drop l r);
             d = length (takeWhile isDigit (drop (l + sign) r));
             sp = optional 32 (drop (l + sign + d) r)
         in if l = 0 then None else Some (1 + l + sign + d + sp, []))
      else None)"

text \<open>\<open>/<w:t[^>]*>(.*?)<\/w:t>/\<close>\<close>

definition rxTextRun :: matcher where
  "rxTextRun s =
     (if startsWith (js ''<w:t'') s then
        (case upTo 62 (drop 4 s) of
           None \<Rightarrow> None
         | Some k \<Rightarrow>
             (case lazyUntil (\<lambda>c. \<not> isLineTerminator c) (js ''</w:t>'') (drop (4 + k) s) of
                None \<Rightarrow> None
              | Some g \<Rightarrow> Some (4 + k + length g + 6, g)))
      else None)"

text \<open>\<open>/<w:p[\s\S]*?>/\<close>\<close>

definition rxParagraphOpen :: matcher where
  "rxParagraphOpen s =
     (if startsWith (js ''<w:p'') s then
        (case upTo 62 (drop 4 s) of None \<Rightarrow> None | Some k \<Rightarrow> Some (4 + k, []))
      else None)"

text \<open>\<open>/\s{2,}/\<close>\<close>

definition rxSpaces :: matcher where
  "rxSpaces s =
     (let n = length (takeWhile isWhiteSpace s) in if 2 \<le> n then Some (n, []) else None)"

text \<open>\<open>/<text:p[^>]*>([\s\S]*?)<\/text:p>/\<close>\<close>

definition rxTextP :: matcher where
  "rxTextP s =
     (if startsWith (js ''<text:p'') s then
        (case upTo 62 (drop 7 s) of
           None \<Rightarrow> None
         | Some k \<Rightarrow>
             (case lazyUntil (\<lambda>c. True) (js ''</text:p>'') (drop (7 + k) s) of
                None \<Rightarrow> None
              | Some g \<Rightarrow> Some (7 + k + length g + 9, g)))
      else None)"

text \<open>\<open>/<[^>]+>/\<close>\<close>

definition rxTag :: matcher where
  "rxTag s =
     (if startsWith [60] s then
        (case upTo 62 (drop 1 s) of
           None \<Rightarrow> None
         | Some k \<Rightarrow> if 2 \<le> k then Some (1 + k, []) else None)
      else None)"

fun joinWith :: "jsstring \<Rightarrow> jsstring list \<Rightarrow> jsstring" where
  "joinWith sep [] = []"
| "joinWith sep [x] = x"
| "joinWith sep (x # y # ys) = x @ sep @ joinWith sep (y # ys)"

section \<open>Text extractor\<close>

text \<open>
  The libraries that read the uploaded file are outside the program. A file is given by
  its name and by what each of them returns for it: \<open>file.text()\<close>, the archive that
  \<open>JSZip.loadAsync\<close> resolves to (the names of its entries, each with what
  \<open>async('string')\<close> gives for it: a string, or a rejection when the entry cannot be
  decompressed) and the document that \<open>pdfjs.getDocument\<close> resolves to, the password dialogue
  included; \<open>encrypted\<close> says that the document opens with a password only. A page of a
  PDF is the \<open>str\<close> of its text items (\<open>None\<close> where it is not a string), what
  happens when the page is rendered on a canvas at scale 2, and what
  \<open>Tesseract.recognize\<close> gives as \<open>data.text\<close> for the rendered canvas (\<open>None\<close> when
  the import or the recognition rejects). \<open>getPage\<close> and \<open>getTextContent\<close> resolve for
  every page of a loaded document.
\<close>

datatype render_outcome = NoContext | RenderRejects | Rendered

record pdf_page =
  items :: "jsstring option list"
  render :: render_outcome
  recognized :: "jsstring option"

datatype entry_read = ReadRejects | ReadString jsstring

datatype zip_load = ZipRejects | ZipLoaded "(jsstring \<times> entry_read) list"

datatype pdf_load = PdfRejects | PdfLoaded "pdf_page list"

record source_file =
  name :: jsstring
  contents :: jsstring
  archive :: zip_load
  pdf :: pdf_load
  encrypted :: bool

datatype rejection =
  JSZipLoad | JSZipRead | PdfjsLoad | FetchFailed | DocumentUndefined | PageRender
  | FontEncoding

datatype error = Error jsstring | Rejected rejection

datatype event = OcrFallback nat | Post jsstring source_file jsstring jsstring

definition toPlain :: "jsstring \<Rightarrow> jsstring" where
  "toPlain s = filter (\<lambda>c. c \<noteq> 0) s"

definition extractRtf :: "jsstring \<Rightarrow> jsstring" where
  "extractRtf raw =
     toPlain
       (replaceAll rxControlWord []
         (replaceAll rxUnicodeEscape []
           (replaceAll rxHexEscape []
             (replaceAll rxPar nl
               (filter (\<lambda>c. c \<noteq> 123 \<and> c \<noteq> 125) raw)))))"

text \<open>
  What is done with the main markup part once it is read as a non-empty string: lines
  144 to 150 for DOCX, lines 158 to 164 for ODT.
\<close>

definition scrapeDocx :: "jsstring \<Rightarrow> jsstring" where
  "scrapeDocx docXml =
     (let texts = matchAll rxTextRun docXml;
          paraBreaks = length (matchAll rxParagraphOpen docXml);
          content = concat texts
      in toPlain (if 0 < paraBreaks then replaceAll rxSpaces nl content else content))"

definition scrapeOdt :: "jsstring \<Rightarrow> jsstring" where
  "scrapeOdt contentXml =
     (let paras = map (\<lambda>g. trim (replaceAll rxTag [] g)) (matchAll rxTextP contentXml)
      in toPlain (joinWith nl paras))"

text \<open>
  \<open>zip.file(name)?.async('string')\<close> and the test \<open>!docXml\<close>: no entry of that name
  gives \<open>undefined\<close>, an entry is read, and the empty string is falsy.
\<close>

definition extractDocx :: "(jsstring \<times> entry_read) list \<Rightarrow> error + jsstring" where
  "extractDocx entries =
     (case map_of entries (js ''word/document.xml'') of
        None \<Rightarrow> Inr []
      | Some ReadRejects \<Rightarrow> Inl (Rejected JSZipRead)
      | Some (ReadString docXml) \<Rightarrow> Inr (if docXml = [] then [] else scrapeDocx docXml))"

definition extractOdt :: "(jsstring \<times> entry_read) list \<Rightarrow> error + jsstring" where
  "extractOdt entries =
     (case map_of entries (js ''content.xml'') of
        None \<Rightarrow> Inr []
      | Some ReadRejects \<Rightarrow> Inl (Rejected JSZipRead)
      | Some (ReadString contentXml) \<Rightarrow>
          Inr (if contentXml = [] then [] else scrapeOdt contentXml))"

definition textLayer :: "pdf_page \<Rightarrow> jsstring" where
  "textLayer page =
     joinWith [32] (map (\<lambda>it. case it of Some str \<Rightarrow> str | None \<Rightarrow> []) (items page))"

definition alnumCount :: "jsstring \<Rightarrow> nat" where
  "alnumCount pageText = length (filter isAlnum pageText)"

text \<open>
  \<open>alnumCount < pageText.length * 0.2\<close> is a comparison of doubles. \<open>double02\<close> is
  the double that the literal \<open>0.2\<close> denotes, and \<open>nearestDouble e r x\<close> says that the
  double \<open>r * 2^(e - 52)\<close> is a nearest one to \<open>x\<close>, whose binary exponent is \<open>e\<close>:
  the product of two doubles is a nearest double to their exact product. For a length
  below \<open>2^50\<close> the comparison of the source is the comparison of integers
  \<open>5 * alnumCount < length\<close> (\<open>double_density_test\<close> below), which \<open>needsOCR\<close>
  is written with.
\<close>

definition double02 :: rat where
  "double02 = (2 ^ 54 + 1) / (5 * 2 ^ 54)"

definition nearestDouble :: "int \<Rightarrow> int \<Rightarrow> rat \<Rightarrow> bool" where
  "nearestDouble e r x =
     (2 powi e \<le> x \<and> x < 2 powi (e + 1)
      \<and> \<bar>x - of_int r * 2 powi (e - 52)\<bar> * 2 \<le> 2 powi (e - 52))"

definition needsOCR :: "jsstring \<Rightarrow> bool" where
  "needsOCR pageText =
     (length (trim pageText) < 20 \<or> 5 * alnumCount pageText < length pageText)"

definition ocrFallback :: "jsstring \<Rightarrow> pdf_page \<Rightarrow> jsstring" where
  "ocrFallback pageText page =
     (case render page of
        NoContext \<Rightarrow> pageText
      | RenderRejects \<Rightarrow> pageText
      | Rendered \<Rightarrow>
          (case recognized page of
             None \<Rightarrow> pageText
           | Some t \<Rightarrow> if trim t \<noteq> [] then trim t else pageText))"

text \<open>
  The loop over the pages, \<open>i\<close> the number of the page and \<open>numPages\<close> the number of
  pages of the document. \<open>hasDocument\<close> is \<open>typeof document !== 'undefined'\<close>.
\<close>

fun extractPages :: "bool \<Rightarrow> nat \<Rightarrow> nat \<Rightarrow> pdf_page list \<Rightarrow> event list \<times> jsstring" where
  "extractPages hasDocument i numPages [] = ([], [])"
| "extractPages hasDocument i numPages (page # pages) =
     (let pageText = textLayer page;
          enter = (needsOCR pageText \<and> hasDocument);
          pageText' = (if enter then ocrFallback pageText page else pageText);
          rest = extractPages hasDocument (Suc i) numPages pages
      in ((if enter then [OcrFallback i] else []) @ fst rest,
          pageText' @ (if i < numPages then nl @ nl else []) @ snd rest))"

fun extractText :: "bool \<Rightarrow> source_file \<Rightarrow> ConversionFormat \<Rightarrow> event list \<times> (error + jsstring)" where
  "extractText hasDocument f TXT = ([], Inr (contents f))"
| "extractText hasDocument f RTF = ([], Inr (extractRtf (contents f)))"
| "extractText hasDocument f DOCX =
     (case archive f of
        ZipRejects \<Rightarrow> ([], Inl (Rejected JSZipLoad))
      | ZipLoaded entries \<Rightarrow> ([], extractDocx entries))"
| "extractText hasDocument f ODT =
     (case archive f of
        ZipRejects \<Rightarrow> ([], Inl (Rejected JSZipLoad))
      | ZipLoaded entries \<Rightarrow> ([], extractOdt entries))"
| "extractText hasDocument f PDF =
     (case pdf f of
        PdfRejects \<Rightarrow> ([], Inl (Rejected PdfjsLoad))
      | PdfLoaded pages \<Rightarrow>
          (let r = extractPages hasDocument 1 (length pages) pages
           in (fst r, Inr (toPlain (snd r)))))"

section \<open>Document builder\<close>

datatype docx_paragraph = TextParagraph jsstring | ImageParagraph nat | EmptyParagraph

text \<open>
  The payload of a \<open>Blob\<close>: a string, the bytes of a response, or what \<open>pdf-lib\<close> saves
  for a document with the given lines drawn on its pages. \<open>Packed\<close> is the blob that
  \<open>Packer.toBlob\<close> of the \<open>docx\<close> library resolves to for a document with the given
  paragraphs.
\<close>

datatype payload = Text jsstring | Binary "8 word list" | PdfSaved "jsstring list list"

datatype blob = Blob payload jsstring | Packed "docx_paragraph list"

fun splitOn :: "jschar \<Rightarrow> jsstring \<Rightarrow> jsstring list" where
  "splitOn c [] = [[]]"
| "splitOn c (x # xs) =
     (if x = c then [] # splitOn c xs
      else (case splitOn c xs of l # ls \<Rightarrow> (x # l) # ls | [] \<Rightarrow> [[x]]))"

text \<open>\<open>split(/\s+/)\<close>, with the piece read so far.\<close>

function splitSpaces :: "jsstring \<Rightarrow> jsstring \<Rightarrow> jsstring list" where
  "splitSpaces cur [] = [cur]"
| "splitSpaces cur (c # cs) =
     (if isWhiteSpace c then cur # splitSpaces [] (dropWhile isWhiteSpace cs)
      else splitSpaces (cur @ [c]) cs)"
  by pat_completeness auto
termination
  by (relation "measure (\<lambda>(cur, s). length s)")
     (auto simp: le_imp_less_Suc length_dropWhile_le)

definition replaceChar :: "jschar \<Rightarrow> jsstring \<Rightarrow> jsstring \<Rightarrow> jsstring" where
  "replaceChar c r s = concat (map (\<lambda>x. if x = c then r else [x]) s)"

definition esc :: "jsstring \<Rightarrow> jsstring" where
  "esc s = replaceChar 125 [bs, 125] (replaceChar 123 [bs, 123] (replaceChar bs [bs, bs] s))"

definition buildRtf :: "jsstring \<Rightarrow> jsstring" where
  "buildRtf full =
     js ''{'' @ bs # js ''rtf1'' @ bs # js ''ansi'' @ nl
     @ replaceChar 10 (bs # js ''par'' @ nl) (esc full) @ nl @ js ''}''"

definition dq :: jsstring where
  "dq = [34]"

definition buildOdt :: "jsstring \<Rightarrow> jsstring" where
  "buildOdt full =
     js ''<?xml version='' @ dq @ js ''1.0'' @ dq @ js '' encoding='' @ dq @ js ''UTF-8'' @ dq
     @ js ''?>'' @ nl
     @ js ''<office:document xmlns:office='' @ dq
     @ js ''urn:oasis:names:tc:opendocument:xmlns:office:1.0'' @ dq
     @ js '' xmlns:text='' @ dq @ js ''urn:oasis:names:tc:opendocument:xmlns:text:1.0'' @ dq
     @ js ''><office:body><office:text>''
     @ concat (map (\<lambda>p. js ''<text:p>''
                          @ replaceChar 60 (js ''&lt;'') (replaceChar 38 (js ''&amp;'') p)
                          @ js ''</text:p>'')
                 (splitOn 10 full))
     @ js ''</office:text></office:body></office:document>''"

text \<open>
  The word wrap of the PDF target. \<open>width\<close> is \<open>font.widthOfTextAtSize\<close> at size 12,
  \<open>None\<close> where the font cannot encode the text and the call throws; the page is 612
  wide with margins of 50.
\<close>

fun wrapWords ::
  "(jsstring \<Rightarrow> rat option) \<Rightarrow> jsstring list \<Rightarrow> jsstring \<Rightarrow> jsstring list \<Rightarrow> jsstring list option"
where
  "wrapWords width [] current lines =
     Some (if current \<noteq> [] then lines @ [current] else lines)"
| "wrapWords width (w # ws) current lines =
     (let test = (if current \<noteq> [] then current @ [32] @ w else w) in
      case width test of
        None \<Rightarrow> None
      | Some wd \<Rightarrow>
          if wd > 612 - 50 * 2
          then wrapWords width ws w (if current \<noteq> [] then lines @ [current] else lines)
          else wrapWords width ws test lines)"

text \<open>
  The lines drawn on the pages, the last page of \<open>pages\<close> being the current one.
  \<open>y\<close> starts at 742 and goes down by \<open>fontSize * 1.4\<close> a line; the doubles of the
  source stay far from the bound 62 where a page is added, so exact arithmetic adds the
  pages at the same lines.
\<close>

fun drawLines :: "rat \<Rightarrow> jsstring list \<Rightarrow> jsstring list list \<Rightarrow> jsstring list list" where
  "drawLines y [] pages = pages"
| "drawLines y (line # rest) pages =
     (let pages' = (if y < 50 + 12 then pages @ [[]] else pages);
          y' = (if y < 50 + 12 then 792 - 50 else y)
      in drawLines (y' - 12 * (7 / 5)) rest (butlast pages' @ [last pages' @ [line]]))"

definition buildPdf :: "(jsstring \<Rightarrow> rat option) \<Rightarrow> jsstring \<Rightarrow> error + blob" where
  "buildPdf width full =
     (case wrapWords width (splitSpaces [] full) [] [] of
        None \<Rightarrow> Inl (Rejected FontEncoding)
      | Some lines \<Rightarrow> Inr (Blob (PdfSaved (drawLines (792 - 50) lines [[]])) (getMimeType PDF)))"

fun buildDocument :: "(jsstring \<Rightarrow> rat option) \<Rightarrow> ConversionFormat \<Rightarrow> jsstring \<Rightarrow> error + blob" where
  "buildDocument width TXT full = Inr (Blob (Text full) (getMimeType TXT))"
| "buildDocument width RTF full = Inr (Blob (Text (buildRtf full)) (getMimeType RTF))"
| "buildDocument width DOCX full = Inr (Packed (map TextParagraph (splitOn 10 full)))"
| "buildDocument width ODT full = Inr (Blob (Text (buildOdt full)) (getMimeType ODT))"
| "buildDocument width PDF full = buildPdf width full"

section \<open>Conversion dispatcher\<close>

text \<open>
  The state of the page and the surroundings that \<open>convertDocument\<close> reads: the two
  options, the last health status (\<open>None\<close> while none has been recorded), whether
  \<open>document\<close> is defined, the string that \<open>new Date().toLocaleString()\<close> returns, the
  outcome of the request to the conversion endpoint, and the widths of the embedded font.
\<close>

record Health =
  ok :: bool
  server_available :: bool
  server_message :: "jsstring option"

text \<open>
  A response: its status, \<open>error\<close> of its JSON body when that is a string, \<open>hints\<close> of
  its JSON body when that is an array (empty otherwise), and its bytes.
\<close>

record response =
  status :: nat
  json_error :: "jsstring option"
  json_hints :: "jsstring list"
  body :: "8 word list"

datatype fetch_result = FetchRejects | Responds response

record env =
  useServer :: bool
  health :: "Health option"
  preserveLayout :: bool
  hasDocument :: bool
  now :: jsstring
  fetch :: "source_file \<Rightarrow> jsstring \<Rightarrow> jsstring \<Rightarrow> fetch_result"
  widthOfTextAtSize :: "jsstring \<Rightarrow> rat option"

fun digits :: "nat \<Rightarrow> jsstring" where
  "digits n = (if n < 10 then [48 + of_nat n] else digits (n div 10) @ [48 + of_nat (n mod 10)])"

definition serverUnavailable :: jsstring where
  "serverUnavailable = js ''Server conversion unavailable. See health check details.''"

definition pdfServerUnsupported :: jsstring where
  "pdfServerUnsupported =
     js ''PDF '' @ [8594] @ js '' DOCX/ODT is not supported in server mode. Disable '' @ dq
     @ js ''Use server conversion'' @ dq @ js '' or enable '' @ dq @ js ''Preserve layout'' @ dq
     @ js '' for image-based DOCX.''"

definition placeholder :: jsstring where
  "placeholder = js ''(No extractable text found)''"

fun extMap :: "ConversionFormat \<Rightarrow> jsstring" where
  "extMap PDF = js ''.pdf''"
| "extMap DOCX = js ''.docx''"
| "extMap TXT = js ''.txt''"
| "extMap RTF = js ''.rtf''"
| "extMap ODT = js ''.odt''"

definition serverConvert ::
  "env \<Rightarrow> source_file \<Rightarrow> ConversionFormat \<Rightarrow> ConversionFormat \<Rightarrow> event list \<times> (error + blob)"
where
  "serverConvert e f source target =
     (let targetExt = extMap target;
          sourceExt = extMap source
      in ([Post (js ''/api/convert'') f targetExt sourceExt],
          case fetch e f targetExt sourceExt of
            FetchRejects \<Rightarrow> Inl (Rejected FetchFailed)
          | Responds resp \<Rightarrow>
              if 200 \<le> status resp \<and> status resp \<le> 299
              then Inr (Blob (Binary (body resp)) (getMimeType target))
              else
                (let base = (case json_error resp of
                               Some msg \<Rightarrow> msg
                             | None \<Rightarrow> js ''Server conversion failed ('' @ digits (status resp)
                                         @ js '')'');
                     hints = (if json_hints resp \<noteq> [] then nl @ joinWith nl (json_hints resp)
                              else [])
                 in Inl (Error (base @ hints)))))"

text \<open>
  The layout-preserving path: one image paragraph for each page that has a canvas context,
  and an empty paragraph after it unless the page is the last. This call of
  \<open>getDocument\<close> has no password dialogue. The bytes of the images and their sizes are
  not part of the model.
\<close>

fun layoutParagraphs :: "nat \<Rightarrow> nat \<Rightarrow> pdf_page list \<Rightarrow> error + docx_paragraph list" where
  "layoutParagraphs i numPages [] = Inr []"
| "layoutParagraphs i numPages (page # pages) =
     (case render page of
        NoContext \<Rightarrow> layoutParagraphs (Suc i) numPages pages
      | RenderRejects \<Rightarrow> Inl (Rejected PageRender)
      | Rendered \<Rightarrow>
          (case layoutParagraphs (Suc i) numPages pages of
             Inl err \<Rightarrow> Inl err
           | Inr rest \<Rightarrow>
               Inr (ImageParagraph i # (if i < numPages then [EmptyParagraph] else []) @ rest)))"

definition convertLayout :: "env \<Rightarrow> source_file \<Rightarrow> error + blob" where
  "convertLayout e f =
     (case pdf f of
        PdfRejects \<Rightarrow> Inl (Rejected PdfjsLoad)
      | PdfLoaded pages \<Rightarrow>
          if encrypted f then Inl (Rejected PdfjsLoad)
          else if pages \<noteq> [] \<and> \<not> hasDocument e then Inl (Rejected DocumentUndefined)
          else (case layoutParagraphs 1 (length pages) pages of
                  Inl err \<Rightarrow> Inl err
                | Inr children \<Rightarrow> Inr (Packed children)))"

definition header :: "env \<Rightarrow> source_file \<Rightarrow> ConversionFormat \<Rightarrow> ConversionFormat \<Rightarrow> jsstring" where
  "header e f source target =
     js ''Converted from: '' @ name f @ nl
     @ js ''Original format: '' @ formatName source @ nl
     @ js ''Target format: '' @ formatName target @ nl
     @ js ''Conversion date: '' @ now e @ nl @ nl"

definition fullText :: "jsstring \<Rightarrow> jsstring \<Rightarrow> jsstring" where
  "fullText hdr text = hdr @ (if trim text \<noteq> [] then text else placeholder)"

definition clientConvert ::
  "env \<Rightarrow> source_file \<Rightarrow> ConversionFormat \<Rightarrow> ConversionFormat \<Rightarrow> event list \<times> (error + blob)"
where
  "clientConvert e f source target =
     (case extractText (hasDocument e) f source of
        (evs, Inl err) \<Rightarrow> (evs, Inl err)
      | (evs, Inr text) \<Rightarrow>
          (evs, buildDocument (widthOfTextAtSize e) target
                  (fullText (header e f source target) text)))"

definition unavailable :: "Health option \<Rightarrow> bool" where
  "unavailable h = (case h of None \<Rightarrow> False | Some st \<Rightarrow> \<not> ok st)"

definition convertDocument ::
  "env \<Rightarrow> source_file \<Rightarrow> ConversionFormat \<Rightarrow> ConversionFormat \<Rightarrow> event list \<times> (error + blob)"
where
  "convertDocument e f source target =
     (if useServer e \<and> unavailable (health e) then ([], Inl (Error serverUnavailable))
      else if useServer e \<and> source = PDF \<and> (target = DOCX \<or> target = ODT)
      then ([], Inl (Error pdfServerUnsupported))
      else if useServer e then serverConvert e f source target
      else if source = PDF \<and> target = DOCX \<and> preserveLayout e
      then ([], convertLayout e f)
      else clientConvert e f source target)"

section \<open>Conversion endpoint\<close>

text \<open>
  The handler of \<open>POST\<close> in \<open>route.ts\<close>. A request is the form that
  \<open>req.formData()\<close> resolves to, or the message of the error it rejects with. The server
  is given by its environment variables, its platform, the shape of the module
  \<open>libreoffice-convert\<close> and what a conversion of an upload calls back with: the message
  of an error, or the converted bytes. The name given to the conversion is a function of
  the name of the upload, so the conversion is given the upload's name. \<open>typeError\<close>
  and \<open>headerError\<close> are the messages of the errors that the runtime throws for a call
  of \<open>toLowerCase\<close> on a file and for a header value that it refuses.
\<close>

datatype form_value = Str jsstring | Upload jsstring "8 word list"

datatype request = BodyRejects jsstring | Form "(jsstring \<times> form_value) list"

datatype platform = Win32 | Darwin | Linux

datatype lc_module = ImportRejects jsstring | IsFunction | HasDefault | Named bool bool | NoObject

record server =
  LIBREOFFICE_BIN :: "jsstring option"
  LIBRE_OFFICE_EXE :: "jsstring option"
  LIBRE_OFFICE_BIN :: "jsstring option"
  platform :: platform
  lcModule :: lc_module
  soffice :: "bool \<Rightarrow> jsstring \<Rightarrow> 8 word list \<Rightarrow> jsstring \<Rightarrow> jsstring + 8 word list"
  typeError :: jsstring
  headerError :: "jsstring \<Rightarrow> jsstring"

datatype server_event = Convert bool jsstring

datatype http_body =
    Json jsstring "jsstring list option"
  | Attachment "8 word list" jsstring jsstring

record http_response =
  http_status :: nat
  http_body :: http_body

text \<open>The pair says which of \<open>convert\<close> and \<open>convertWithOptions\<close> is there.\<close>

fun getLibreOfficeFns :: "lc_module \<Rightarrow> bool \<times> bool" where
  "getLibreOfficeFns IsFunction = (True, False)"
| "getLibreOfficeFns HasDefault = (True, False)"
| "getLibreOfficeFns (Named hasConvert hasOptions) = (hasConvert, hasOptions)"
| "getLibreOfficeFns NoObject = (False, False)"
| "getLibreOfficeFns (ImportRejects msg) = (False, False)"

definition truthy :: "jsstring option \<Rightarrow> bool" where
  "truthy v = (case v of None \<Rightarrow> False | Some str \<Rightarrow> str \<noteq> [])"

text \<open>\<open>Array.from(new Set(xs))\<close> keeps the first of equal elements.\<close>

definition dedup :: "jsstring list \<Rightarrow> jsstring list" where
  "dedup xs = rev (remdups (rev xs))"

definition resolveSofficeBinaryPaths :: "server \<Rightarrow> jsstring list" where
  "resolveSofficeBinaryPaths sv =
     (let envBin = (if truthy (LIBREOFFICE_BIN sv) then LIBREOFFICE_BIN sv
                    else if truthy (LIBRE_OFFICE_EXE sv) then LIBRE_OFFICE_EXE sv
                    else LIBRE_OFFICE_BIN sv);
          envPaths = (case envBin of None \<Rightarrow> [] | Some p \<Rightarrow> if p \<noteq> [] then [p] else [])
      in dedup (filter (\<lambda>p. p \<noteq> [])
           (envPaths @
            (case platform sv of
               Win32 \<Rightarrow>
                 [js ''C'' @ bs # js ''Program Files'' @ bs # js ''LibreOffice'' @ bs
                  # js ''program'' @ bs # js ''soffice.exe'',
                  js ''C'' @ bs # js ''Program Files (x86)'' @ bs # js ''LibreOffice'' @ bs
                  # js ''program'' @ bs # js ''soffice.exe'']
             | Darwin \<Rightarrow> [js ''/Applications/LibreOffice.app/Contents/MacOS/soffice'']
             | Linux \<Rightarrow> [js ''/usr/bin/soffice'', js ''/usr/local/bin/soffice'']))))"

definition json :: "nat \<Rightarrow> jsstring \<Rightarrow> jsstring list option \<Rightarrow> http_response" where
  "json code msg hints = \<lparr>http_status = code, http_body = Json msg hints\<rparr>"

text \<open>
  \<open>(form.get(key) as string | null)?.toLowerCase()\<close>: \<open>None\<close> when the entry is a
  file, which has no such method, and the call throws.
\<close>

definition lowerField :: "(jsstring \<times> form_value) list \<Rightarrow> jsstring \<Rightarrow> jsstring option option" where
  "lowerField form key =
     (case map_of form key of
        None \<Rightarrow> Some None
      | Some (Str str) \<Rightarrow> Some (Some (toLowerCase str))
      | Some (Upload n b) \<Rightarrow> None)"

fun contains :: "jsstring \<Rightarrow> jsstring \<Rightarrow> bool" where
  "contains p [] = (p = [])"
| "contains p (c # cs) = (startsWith p (c # cs) \<or> contains p cs)"

definition pdfUnsupported :: jsstring where
  "pdfUnsupported =
     js ''PDF to DOCX/ODT is not reliably supported by LibreOffice on the server. Use client conversion with Preserve layout or convert to TXT/RTF instead.''"

definition conversionFailed :: "server \<Rightarrow> jsstring \<Rightarrow> http_response" where
  "conversionFailed sv msg =
     json 502 (js ''LibreOffice conversion failed: '' @ msg)
       (Some ((if contains (js ''enoent'') (toLowerCase msg)
               then [js ''Output file not found. This often means soffice did not run or failed.'',
                     js ''Ensure LibreOffice is installed and soffice is on PATH, or set LIBREOFFICE_BIN to the full path to soffice.exe.'']
               else [])
              @ [js ''Paths tried: '' @ joinWith (js '', '') (resolveSofficeBinaryPaths sv)]))"

definition mimeOfExt :: "jsstring \<Rightarrow> jsstring" where
  "mimeOfExt targetExt =
     (if targetExt = js ''.pdf'' then js ''application/pdf''
      else if targetExt = js ''.docx''
      then js ''application/vnd.openxmlformats-officedocument.wordprocessingml.document''
      else if targetExt = js ''.doc'' then js ''application/msword''
      else if targetExt = js ''.rtf'' then js ''application/rtf''
      else if targetExt = js ''.odt'' then js ''application/vnd.oasis.opendocument.text''
      else js ''application/octet-stream'')"

text \<open>
  A header value is a byte string with no NUL, line feed or carriage return; the
  constructor of the response throws for any other value, inside the inner \<open>try\<close>.
\<close>

definition validHeaderValue :: "jsstring \<Rightarrow> bool" where
  "validHeaderValue v = list_all (\<lambda>c. c \<le> 255 \<and> c \<noteq> 0 \<and> c \<noteq> 10 \<and> c \<noteq> 13) v"

definition convertUpload ::
  "server \<Rightarrow> jsstring \<Rightarrow> 8 word list \<Rightarrow> jsstring \<Rightarrow> server_event list \<times> http_response"
where
  "convertUpload sv uploadedName inputBuf targetExt =
     (case lcModule sv of
        ImportRejects msg \<Rightarrow> ([], conversionFailed sv msg)
      | m \<Rightarrow>
          (let convert = fst (getLibreOfficeFns m);
               convertWithOptions = snd (getLibreOfficeFns m);
               target = (if startsWith (js ''.'') targetExt then drop 1 targetExt else targetExt)
           in if convert \<or> convertWithOptions
              then ([Convert convertWithOptions target],
                    case soffice sv convertWithOptions uploadedName inputBuf target of
                      Inl msg \<Rightarrow> conversionFailed sv msg
                    | Inr result \<Rightarrow>
                        (let disposition =
                               js ''attachment; filename='' @ dq @ js ''converted'' @ targetExt
                               @ dq
                         in if validHeaderValue disposition
                            then \<lparr>http_status = 200,
                                  http_body = Attachment result (mimeOfExt targetExt) disposition\<rparr>
                            else conversionFailed sv (headerError sv disposition)))
              else ([], json 500 (js ''libreoffice-convert module load failed'') None)))"

definition POST :: "server \<Rightarrow> request \<Rightarrow> server_event list \<times> http_response" where
  "POST sv req =
     (case req of
        BodyRejects msg \<Rightarrow> ([], json 500 msg None)
      | Form form \<Rightarrow>
          (case lowerField form (js ''targetExt'') of
             None \<Rightarrow> ([], json 500 (typeError sv) None)
           | Some targetExt \<Rightarrow>
               (case lowerField form (js ''sourceExt'') of
                  None \<Rightarrow> ([], json 500 (typeError sv) None)
                | Some sourceExt \<Rightarrow>
                    (case map_of form (js ''file'') of
                       Some (Upload uploadedName inputBuf) \<Rightarrow>
                         (case targetExt of
                            None \<Rightarrow> ([], json 400 (js ''Invalid request'') None)
                          | Some ext \<Rightarrow>
                              if ext = [] then ([], json 400 (js ''Invalid request'') None)
                              else if (sourceExt = Some (js ''.pdf'')
                                       \<or> endsWith (js ''.pdf'') (toLowerCase uploadedName))
                                      \<and> (ext = js ''.docx'' \<or> ext = js ''.odt'')
                              then ([], json 400 pdfUnsupported None)
                              else convertUpload sv uploadedName inputBuf ext)
                     | _ \<Rightarrow> ([], json 400 (js ''Invalid request'') None)))))"

section \<open>Sample inputs\<close>

definition sampleFile :: source_file where
  "sampleFile =
     \<lparr>name = js ''a.pdf'', contents = js ''hello'', archive = ZipRejects, pdf = PdfRejects,
      encrypted = False\<rparr>"

definition serverEnv :: "Health option \<Rightarrow> env" where
  "serverEnv h =
     \<lparr>useServer = True, health = h, preserveLayout = False, hasDocument = True,
      now = js ''1/1/2026, 10:00:00 AM'', fetch = (\<lambda>f t s. FetchRejects),
      widthOfTextAtSize = (\<lambda>t. Some 0)\<rparr>"

definition healthy :: Health where
  "healthy = \<lparr>ok = True, server_available = True, server_message = None\<rparr>"

definition unhealthy :: Health where
  "unhealthy =
     \<lparr>ok = False, server_available = False,
      server_message = Some (js ''Health check failed'')\<rparr>"

definition clientEnv :: "jsstring \<Rightarrow> env" where
  "clientEnv date =
     \<lparr>useServer = False, health = None, preserveLayout = False, hasDocument = True,
      now = date, fetch = (\<lambda>f t s. FetchRejects), widthOfTextAtSize = (\<lambda>t. Some 0)\<rparr>"

definition txtFile :: "jsstring \<Rightarrow> source_file" where
  "txtFile t =
     \<lparr>name = js ''a.txt'', contents = t, archive = ZipRejects, pdf = PdfRejects,
      encrypted = False\<rparr>"

definition textPage :: "jsstring list \<Rightarrow> pdf_page" where
  "textPage strs = \<lparr>items = map Some strs, render = Rendered, recognized = Some (js ''scanned words'')\<rparr>"

definition pdfFile :: "pdf_page list \<Rightarrow> source_file" where
  "pdfFile pages =
     \<lparr>name = js ''a.pdf'', contents = [], archive = ZipRejects, pdf = PdfLoaded pages,
      encrypted = False\<rparr>"

definition foxPage :: pdf_page where
  "foxPage = textPage [js ''The quick brown'', js ''fox jumps'']"

definition dogPage :: pdf_page where
  "dogPage = textPage [js ''over the lazy dog today.'']"

definition scannedPage :: pdf_page where
  "scannedPage = textPage []"

definition paddedPage :: pdf_page where
  "paddedPage = textPage [js ''abcdefghij'', js ''              '']"

definition nulPage :: pdf_page where
  "nulPage = textPage [js ''abcdefghijklmnopqrst'' @ [0]]"

definition sampleServer :: server where
  "sampleServer =
     \<lparr>LIBREOFFICE_BIN = None, LIBRE_OFFICE_EXE = None, LIBRE_OFFICE_BIN = None,
      platform = Linux, lcModule = Named True True,
      soffice = (\<lambda>opts n input target. Inr input),
      typeError = js ''toLowerCase is not a function'',
      headerError = (\<lambda>v. js ''Invalid header value'')\<rparr>"

definition pdfToDocxForm :: "(jsstring \<times> form_value) list" where
  "pdfToDocxForm =
     [(js ''file'', Upload (js ''report.pdf'') [37, 80, 68, 70]),
      (js ''targetExt'', Str (js ''.DOCX'')),
      (js ''sourceExt'', Str (js ''.pdf''))]"

definition zipFile :: "(jsstring \<times> entry_read) list \<Rightarrow> source_file" where
  "zipFile entries =
     \<lparr>name = js ''a.docx'', contents = [], archive = ZipLoaded entries, pdf = PdfRejects,
      encrypted = False\<rparr>"

text \<open>A text that ends inside a tag: its last \<open><\<close> has no \<open>>\<close> after it.\<close>

definition endsInsideTag :: "jsstring \<Rightarrow> bool" where
  "endsInsideTag s = (60 \<in> set (takeWhile (\<lambda>c. c \<noteq> 62) (rev s)))"

section \<open>Properties of the format selection\<close>





section \<open>Properties of the policy gate\<close>

text \<open>
  Claim C1. In server mode a conversion from PDF to DOCX or to ODT returns an error and
  issues no request, whatever the health status is: the error of the availability gate
  when the status is unavailable, the error of the blocked pair otherwise.
\<close>

theorem server_pdf_blocked:
  assumes "useServer e" and "target = DOCX \<or> target = ODT"
  shows "convertDocument e f PDF target =
           ([], Inl (Error (if unavailable (health e) then serverUnavailable
                            else pdfServerUnsupported)))"
  using assms by (auto simp: convertDocument_def)

theorem server_pdf_blocked_witness:
  "convertDocument (serverEnv (Some healthy)) sampleFile PDF DOCX
     = ([], Inl (Error pdfServerUnsupported))
   \<and> convertDocument (serverEnv (Some unhealthy)) sampleFile PDF ODT
     = ([], Inl (Error serverUnavailable))"
  using server_pdf_blocked [of "serverEnv (Some healthy)" DOCX sampleFile]
    server_pdf_blocked [of "serverEnv (Some unhealthy)" ODT sampleFile]
  by (simp add: serverEnv_def healthy_def unhealthy_def unavailable_def)

text \<open>
  Claim C3. In server mode, when the last recorded health status is not ok, a conversion
  returns the error of the availability gate and issues no request.
\<close>

theorem unavailable_fails:
  assumes "useServer e" and "health e = Some h" and "\<not> ok h"
  shows "convertDocument e f source target = ([], Inl (Error serverUnavailable))"
  using assms by (simp add: convertDocument_def unavailable_def)

theorem unavailable_fails_witness:
  "convertDocument (serverEnv (Some unhealthy)) sampleFile TXT PDF
     = ([], Inl (Error serverUnavailable))"
  using unavailable_fails [of "serverEnv (Some unhealthy)" unhealthy sampleFile TXT PDF]
  by (simp add: serverEnv_def unhealthy_def)

text \<open>
  Claim C9, as stated, fails: in server mode with no recorded health status a conversion
  from PDF to DOCX passes the availability gate and stops at the gate of the blocked pair,
  with no request issued.
\<close>

theorem no_health_no_request_counterexample:
  "useServer (serverEnv None) \<and> health (serverEnv None) = None
   \<and> fst (convertDocument (serverEnv None) sampleFile PDF DOCX) = []"
  by (simp add: serverEnv_def convertDocument_def unavailable_def)

text \<open>
  Claim C9, amended. In server mode with no recorded health status, a conversion of a pair
  other than PDF to DOCX or ODT issues exactly the request to the conversion endpoint and
  ends as the server path ends.
\<close>

theorem no_health_passes_gate:
  assumes "useServer e" and "health e = None"
    and "\<not> (source = PDF \<and> (target = DOCX \<or> target = ODT))"
  shows "fst (convertDocument e f source target)
           = [Post (js ''/api/convert'') f (extMap target) (extMap source)]
         \<and> snd (convertDocument e f source target) = snd (serverConvert e f source target)"
  using assms by (auto simp: convertDocument_def unavailable_def serverConvert_def Let_def)

theorem no_health_passes_gate_witness:
  "useServer (serverEnv None) \<and> health (serverEnv None) = None
   \<and> fst (convertDocument (serverEnv None) sampleFile TXT PDF)
       = [Post (js ''/api/convert'') sampleFile (js ''.pdf'') (js ''.txt'')]"
proof -
  have h: "useServer (serverEnv None)" "health (serverEnv None) = None"
    by (simp_all add: serverEnv_def)
  from no_health_passes_gate [OF h, of TXT PDF sampleFile] h show ?thesis
    by simp
qed

section \<open>The density test in double arithmetic\<close>

lemma product_bounds:
  fixes n :: nat
  assumes "n < 2 ^ 50"
  shows "of_nat n * double02 < (2 ^ 48 :: rat)"
    and "(of_nat n :: rat) / 5 \<le> of_nat n * double02"
    and "of_nat n * double02 \<le> (of_nat n :: rat) / 5 + 1 / 2 ^ 6"
proof -
  have n: "(of_nat n :: rat) < 2 ^ 50" "(0 :: rat) \<le> of_nat n"
    using assms by (simp_all add: of_nat_less_iff [of n "2 ^ 50", where ?'a = rat, simplified])
  show "of_nat n * double02 < (2 ^ 48 :: rat)"
    using n unfolding double02_def by simp
  show "(of_nat n :: rat) / 5 \<le> of_nat n * double02"
    using n unfolding double02_def by simp
  show "of_nat n * double02 \<le> (of_nat n :: rat) / 5 + 1 / 2 ^ 6"
    using n unfolding double02_def by simp
qed

lemma ulp_small:
  fixes x :: rat
  assumes "2 powi e \<le> x" and "x < 2 ^ 48"
  obtains m :: nat where "e - 52 = - int m" and "5 \<le> m"
proof -
  have "e < 48"
  proof (rule ccontr)
    assume "\<not> e < 48"
    then have "(2::rat) powi 48 \<le> 2 powi e"
      by (intro power_int_increasing) simp_all
    with assms show False by simp
  qed
  then have "e - 52 = - int (nat (52 - e))" "5 \<le> nat (52 - e)"
    by simp_all
  then show thesis by (rule that)
qed

lemma double_density_test:
  fixes a n :: nat
  assumes n: "0 < n" "n < 2 ^ 50"
    and near: "nearestDouble e r (of_nat n * double02)"
  shows "(of_nat a < of_int r * (2::rat) powi (e - 52)) = (5 * a < n)"
proof -
  define x :: rat where "x = of_nat n * double02"
  define y :: rat where "y = of_int r * 2 powi (e - 52)"
  define u :: rat where "u = 2 powi (e - 52)"
  have lo: "2 powi e \<le> x" and hi: "x < 2 powi (e + 1)" and close: "\<bar>x - y\<bar> * 2 \<le> u"
    using near by (simp_all add: nearestDouble_def x_def y_def u_def)
  have x48: "x < 2 ^ 48" and xlow: "of_nat n / 5 \<le> x" and xup: "x \<le> of_nat n / 5 + 1 / 2 ^ 6"
    using product_bounds [OF n(2)] by (simp_all add: x_def)
  from lo x48 obtain m :: nat where m: "e - 52 = - int m" "5 \<le> m"
    by (rule ulp_small)
  have u: "u = 1 / 2 ^ m"
    by (simp add: u_def m(1) power_int_minus_divide)
  have "(2::rat) ^ 5 \<le> 2 ^ m"
    using m(2) by (intro power_increasing) simp_all
  then have u5: "u \<le> 1 / 2 ^ 5" and upos: "0 < u"
    by (simp_all add: u field_simps)
  have e1: "(2::rat) powi (e + 1) = 2 ^ 53 * u"
  proof -
    have "(2::rat) powi (53 + (e - 52)) = 2 powi 53 * 2 powi (e - 52)"
      by (rule power_int_add) simp
    moreover have "53 + (e - 52) = e + 1" by simp
    ultimately have "(2::rat) powi (e + 1) = 2 powi 53 * 2 powi (e - 52)"
      by (simp only:)
    then show ?thesis by (simp add: u_def)
  qed
  define k where "k = n div 5"
  define j where "j = n mod 5"
  have nk: "n = 5 * k + j" and j: "j < 5"
    by (simp_all add: k_def j_def)
  have nr: "(of_nat n :: rat) = 5 * of_nat k + of_nat j"
    by (simp add: nk)
  show ?thesis
  proof (cases "j = 0")
    case True
    have xk: "x = of_nat k + of_nat k / 2 ^ 54"
      using True by (simp add: x_def nr double02_def field_simps)
    have kpos: "(0::rat) \<le> of_nat k" by simp
    have "of_nat k \<le> x" using xk kpos by simp
    with hi e1 have "of_nat k < 2 ^ 53 * u" by simp
    then have kN: "(of_nat k :: rat) * 2 ^ m < 2 ^ 53"
      by (simp add: u field_simps)
    have "\<bar>x - of_nat k\<bar> * 2 < u"
    proof -
      have "\<bar>x - of_nat k\<bar> * 2 = of_nat k / 2 ^ 53" by (simp add: xk)
      also have "\<dots> < 1 / 2 ^ m" using kN by (simp add: field_simps)
      finally show ?thesis by (simp add: u)
    qed
    moreover have "\<bar>y - of_nat k\<bar> \<le> \<bar>x - y\<bar> + \<bar>x - of_nat k\<bar>"
      by (simp add: abs_if)
    ultimately have "\<bar>y - of_nat k\<bar> < u"
      using close by (simp add: field_simps)
    moreover have uN: "u * 2 ^ m = 1"
      by (simp add: u)
    moreover have "of_int r - of_nat k * 2 ^ m = (y - of_nat k) * 2 ^ m"
      using uN by (simp add: y_def u_def [symmetric] algebra_simps)
    then have "\<bar>of_int r - of_nat k * 2 ^ m\<bar> = \<bar>y - of_nat k\<bar> * (2 ^ m :: rat)"
      by (simp add: abs_mult)
    moreover have "\<bar>y - of_nat k\<bar> * 2 ^ m < u * (2 ^ m :: rat)"
      using \<open>\<bar>y - of_nat k\<bar> < u\<close> by (intro mult_strict_right_mono) simp_all
    ultimately have "\<bar>of_int r - of_nat k * 2 ^ m\<bar> < (1::rat)"
      by simp
    then have "\<bar>(of_int (r - int k * 2 ^ m) :: rat)\<bar> < 1"
      by simp
    then have "\<bar>r - int k * 2 ^ m\<bar> < 1"
      by (simp only: of_int_abs [symmetric] of_int_less_1_iff)
    then have "r = int k * 2 ^ m" by simp
    then have "y = of_nat k"
      by (simp add: y_def u_def [symmetric] u)
    then show ?thesis
      using True by (simp add: y_def nk)
  next
    case False
    with j have j14: "1 \<le> j" "j \<le> 4" by simp_all
    then have jr: "(1::rat) / 5 \<le> of_nat j / 5" "(of_nat j :: rat) / 5 \<le> 4 / 5"
      by (simp_all add: of_nat_le_iff [of _ 4, where ?'a = rat, simplified])
    have nr5: "(of_nat n :: rat) / 5 = of_nat k + of_nat j / 5"
      by (simp add: nr add_divide_distrib)
    have "of_nat k + 1 / 5 \<le> x"
      using xlow jr(1) unfolding nr5 by linarith
    moreover have "x \<le> of_nat k + 4 / 5 + 1 / 2 ^ 6"
      using xup jr(2) unfolding nr5 by linarith
    moreover have "u \<le> 1 / 32"
      using u5 by simp
    ultimately have "of_nat k < y" "y < of_nat k + 1"
      using close by (simp_all add: abs_if split: if_splits)
    then have "(of_nat a < y) = (a \<le> k)"
    proof -
      assume y: "of_nat k < y" "y < of_nat k + 1"
      show ?thesis
      proof
        assume "of_nat a < y"
        with y have "(of_nat a :: rat) < of_nat (k + 1)" by simp
        then have "a < k + 1" by (simp only: of_nat_less_iff)
        then show "a \<le> k" by simp
      next
        assume "a \<le> k"
        then have "(of_nat a :: rat) \<le> of_nat k" by simp
        with y show "of_nat a < y" by simp
      qed
    qed
    also have "(a \<le> k) = (5 * a < n)"
      using j14 by (auto simp: nk)
    finally show ?thesis by (simp add: y_def)
  qed
qed

lemma double_density_test_example:
  "nearestDouble 2 (5 * 2 ^ 50) (of_nat 25 * double02)"
  by (simp add: nearestDouble_def double02_def)

lemma double02_nearest:
  "nearestDouble (- 3) 7205759403792794 (1 / 5)
   \<and> of_int 7205759403792794 * 2 powi (- 3 - 52) = double02"
  by (simp add: nearestDouble_def double02_def)

lemma needsOCR_double:
  assumes "pageText \<noteq> []" and "length pageText < 2 ^ 50"
    and "nearestDouble e r (of_nat (length pageText) * double02)"
  shows "needsOCR pageText =
           (length (trim pageText) < 20
            \<or> of_nat (alnumCount pageText) < of_int r * (2::rat) powi (e - 52))"
  using assms double_density_test [of "length pageText" e r "alnumCount pageText"]
  by (simp add: needsOCR_def)

section \<open>Properties of the text extractor\<close>

lemma alnum_not_space: "isAlnum c \<Longrightarrow> \<not> isWhiteSpace c"
  unfolding isAlnum_def isLetter_def isDigit_def isWhiteSpace_def
  by (auto; unat_arith)

lemma alnum_not_nul: "isAlnum c \<Longrightarrow> c \<noteq> 0"
  unfolding isAlnum_def isLetter_def isDigit_def
  by auto

lemma dropWhile_keeps: "x \<in> set xs \<Longrightarrow> \<not> P x \<Longrightarrow> x \<in> set (dropWhile P xs)"
  by (induction xs) auto

lemma trim_not_Nil: "x \<in> set s \<Longrightarrow> \<not> isWhiteSpace x \<Longrightarrow> trim s \<noteq> []"
proof -
  assume a: "x \<in> set s" "\<not> isWhiteSpace x"
  then have "x \<in> set (dropWhile isWhiteSpace s)" by (rule dropWhile_keeps)
  then have "x \<in> set (rev (dropWhile isWhiteSpace s))" by simp
  then have "x \<in> set (dropWhile isWhiteSpace (rev (dropWhile isWhiteSpace s)))"
    using a(2) by (rule dropWhile_keeps)
  then show ?thesis
    by (cases "dropWhile isWhiteSpace (rev (dropWhile isWhiteSpace s))")
       (simp_all add: trim_def)
qed

lemma length_trim_le: "length (trim s) \<le> length s"
  unfolding trim_def
  by (metis length_dropWhile_le length_rev order_trans)

lemma joinWith_Cons: "joinWith sep (x # xs) = (if xs = [] then x else x @ sep @ joinWith sep xs)"
  by (cases xs) simp_all

lemma set_joinWith: "x \<in> set xs \<Longrightarrow> set x \<subseteq> set (joinWith sep xs)"
  by (induction xs) (auto simp: joinWith_Cons)

lemma extractPages_text_layer:
  assumes "\<forall>p\<in>set pages. \<not> needsOCR (textLayer p)" and "i + length pages = Suc n"
  shows "extractPages d i n pages = ([], joinWith (nl @ nl) (map textLayer pages))"
  using assms
proof (induction pages arbitrary: i)
  case Nil
  then show ?case by simp
next
  case (Cons p ps)
  then have "extractPages d (Suc i) n ps = ([], joinWith (nl @ nl) (map textLayer ps))"
    by simp
  moreover have "i < n \<longleftrightarrow> ps \<noteq> []"
    using Cons.prems(2) by auto
  ultimately show ?case
    using Cons.prems(1) by (simp add: joinWith_Cons Let_def)
qed

lemma ocr_events:
  "OcrFallback k \<in> set (fst (extractPages d i n pages)) \<longleftrightarrow>
     d \<and> i \<le> k \<and> k < i + length pages \<and> needsOCR (textLayer (pages ! (k - i)))"
proof (induction pages arbitrary: i)
  case Nil
  then show ?case by simp
next
  case (Cons p ps)
  show ?case
  proof (cases "k = i")
    case True
    then show ?thesis using Cons.IH [of "Suc i"] by (auto simp: Let_def)
  next
    case False
    then have "k < i \<or> Suc i \<le> k" by arith
    then show ?thesis
      using False Cons.IH [of "Suc i"] by (auto simp: Let_def Suc_diff_le nth_Cons')
  qed
qed

lemma set_joinWith_subset: "set (joinWith sep xs) \<subseteq> set sep \<union> \<Union>(set ` set xs)"
  by (induction xs) (auto simp: joinWith_Cons split: if_splits)

lemma toPlain_id: "0 \<notin> set s \<Longrightarrow> toPlain s = s"
  by (auto simp: toPlain_def filter_id_conv)

lemma text_layer_not_blank:
  assumes "pages \<noteq> []" and "\<forall>p\<in>set pages. \<not> needsOCR (textLayer p)"
  shows "trim (toPlain (joinWith sep (map textLayer pages))) \<noteq> []"
proof -
  from assms(1) obtain p where p: "p \<in> set pages" by (cases pages) auto
  let ?t = "textLayer p"
  from assms(2) p have "20 \<le> length (trim ?t)" and le: "length ?t \<le> 5 * alnumCount ?t"
    by (auto simp: needsOCR_def)
  with length_trim_le [of ?t] have "0 < alnumCount ?t" by arith
  then obtain c where c: "c \<in> set ?t" "isAlnum c"
    by (auto simp: alnumCount_def filter_empty_conv)
  from p have "set ?t \<subseteq> set (joinWith sep (map textLayer pages))"
    by (intro set_joinWith) simp
  with c alnum_not_nul have "c \<in> set (toPlain (joinWith sep (map textLayer pages)))"
    by (auto simp: toPlain_def)
  then show ?thesis using alnum_not_space [OF c(2)] by (rule trim_not_Nil)
qed

lemma fox_text: "textLayer foxPage = js ''The quick brown fox jumps''"
  by (simp add: foxPage_def textPage_def textLayer_def js_def)

lemma dog_text: "textLayer dogPage = js ''over the lazy dog today.''"
  by (simp add: dogPage_def textPage_def textLayer_def js_def)

lemma fox_full: "\<not> needsOCR (textLayer foxPage)"
  by (simp add: fox_text needsOCR_def trim_def alnumCount_def js_def isWhiteSpace_def
      isAlnum_def isLetter_def isDigit_def)

lemma dog_full: "\<not> needsOCR (textLayer dogPage)"
  by (simp add: dog_text needsOCR_def trim_def alnumCount_def js_def isWhiteSpace_def
      isAlnum_def isLetter_def isDigit_def)

text \<open>
  Claim C2, as stated, fails: a page whose text layer has 25 characters, 10 of them
  alphanumeric, enters the OCR path, because the length that the program compares with 20
  is the length of the trimmed text.
\<close>

theorem padded_page_counterexample:
  "\<not> (length (textLayer paddedPage) < 20
       \<or> 5 * alnumCount (textLayer paddedPage) < length (textLayer paddedPage))
   \<and> OcrFallback 1 \<in> set (fst (extractText True (pdfFile [paddedPage]) PDF))"
  by (simp add: pdfFile_def paddedPage_def textPage_def textLayer_def needsOCR_def trim_def
      alnumCount_def js_def isWhiteSpace_def isAlnum_def isLetter_def isDigit_def Let_def)

text \<open>
  Claim C2, amended. The extractor enters the OCR path for page \<open>k\<close> of a document
  exactly when \<open>document\<close> is defined and the text layer of the page, trimmed, has fewer
  than 20 characters or fewer than 20% of the characters of the text layer are
  alphanumeric.
\<close>

theorem ocr_trigger:
  assumes "pdf f = PdfLoaded pages" and "1 \<le> k" and "k \<le> length pages"
  shows "OcrFallback k \<in> set (fst (extractText d f PDF)) \<longleftrightarrow>
           d \<and> (length (trim (textLayer (pages ! (k - 1)))) < 20
                \<or> 5 * alnumCount (textLayer (pages ! (k - 1)))
                    < length (textLayer (pages ! (k - 1))))"
  using assms ocr_events [of k d 1 "length pages" pages]
  by (auto simp: Let_def needsOCR_def)

theorem ocr_trigger_witness:
  "OcrFallback 2 \<in> set (fst (extractText True (pdfFile [foxPage, scannedPage]) PDF))
   \<and> OcrFallback 1 \<notin> set (fst (extractText True (pdfFile [foxPage, scannedPage]) PDF))"
proof -
  let ?f = "pdfFile [foxPage, scannedPage]"
  have a: "pdf ?f = PdfLoaded [foxPage, scannedPage]"
    by (simp add: pdfFile_def)
  have s: "textLayer scannedPage = []"
    by (simp add: scannedPage_def textPage_def textLayer_def)
  have "OcrFallback 2 \<in> set (fst (extractText True ?f PDF))"
    using ocr_trigger [OF a, of 2 True] by (simp add: s trim_def)
  moreover have "OcrFallback 1 \<notin> set (fst (extractText True ?f PDF))"
    using ocr_trigger [OF a, of 1 True] fox_full by (simp add: needsOCR_def)
  ultimately show ?thesis by blast
qed

subsection \<open>Scraping of the markup parts\<close>

lemma upTo_absent: "c \<notin> set s \<Longrightarrow> upTo c s = None"
proof -
  assume "c \<notin> set s"
  then have tw: "takeWhile (\<lambda>x. x \<noteq> c) s = s"
    by (induction s) auto
  show ?thesis unfolding upTo_def Let_def tw by simp
qed

lemma rxTextRun_no_close: "62 \<notin> set s \<Longrightarrow> rxTextRun s = None"
proof -
  assume "62 \<notin> set s"
  then have "62 \<notin> set (drop 4 s)" by (auto dest: in_set_dropD)
  then show ?thesis by (simp add: rxTextRun_def upTo_absent)
qed

lemma rxParagraphOpen_no_close: "62 \<notin> set s \<Longrightarrow> rxParagraphOpen s = None"
proof -
  assume "62 \<notin> set s"
  then have "62 \<notin> set (drop 4 s)" by (auto dest: in_set_dropD)
  then show ?thesis by (simp add: rxParagraphOpen_def upTo_absent)
qed

lemma rxTextRun_other: "c \<noteq> 60 \<Longrightarrow> rxTextRun (c # s) = None"
  by (simp add: rxTextRun_def startsWith_def js_def)

lemma rxParagraphOpen_other: "c \<noteq> 60 \<Longrightarrow> rxParagraphOpen (c # s) = None"
  by (simp add: rxParagraphOpen_def startsWith_def js_def)

lemma matchAll_no_close:
  assumes "62 \<notin> set s"
  shows "matchAll rxTextRun s = []" and "matchAll rxParagraphOpen s = []"
  using assms
  by (induction s) (simp_all add: rxTextRun_no_close rxParagraphOpen_no_close)

lemma matchAll_skip:
  assumes "60 \<notin> set t"
  shows "matchAll rxParagraphOpen (t @ s) = matchAll rxParagraphOpen s"
  using assms by (induction t) (simp_all add: rxParagraphOpen_other)

lemma matchAll_hit:
  "m (c # cs) = Some (Suc n, g) \<Longrightarrow> drop n cs = rest \<Longrightarrow> matchAll m (c # cs) = g # matchAll m rest"
  by simp

lemma drop_past: "length a = n \<Longrightarrow> drop n (a @ rest) = rest"
  by simp

lemma lazyUntil_found:
  assumes "\<forall>c\<in>set t. X c \<and> c \<noteq> hd lit" and "lit \<noteq> []"
  shows "lazyUntil X lit (t @ lit @ rest) = Some t"
  using assms
proof (induction t)
  case Nil
  then show ?case by (cases lit) (simp_all add: startsWith_def)
next
  case (Cons c t)
  then have "\<not> startsWith lit (c # t @ lit @ rest)"
    by (cases lit) (auto simp: startsWith_def)
  with Cons show ?case by simp
qed

lemma text_run_scraped:
  assumes "60 \<notin> set t" and "\<forall>c\<in>set t. \<not> isLineTerminator c" and "62 \<notin> set rest"
  shows "scrapeDocx (js ''<w:t>'' @ t @ js ''</w:t>'' @ rest) = toPlain t"
proof -
  let ?xml = "js ''<w:t>'' @ t @ js ''</w:t>'' @ rest"
  have lazy: "lazyUntil (\<lambda>c. \<not> isLineTerminator c) (js ''</w:t>'') (t @ js ''</w:t>'' @ rest)
                = Some t"
    using assms(1,2) by (intro lazyUntil_found) (auto simp: js_def)
  have run: "rxTextRun ?xml = Some (Suc (10 + length t), t)"
    using lazy by (simp add: rxTextRun_def startsWith_def upTo_def js_def)
  have "matchAll rxTextRun ?xml = t # matchAll rxTextRun rest"
  proof -
    define cs where "cs = js ''w:t>'' @ t @ js ''</w:t>'' @ rest"
    have x: "?xml = 60 # cs"
      by (simp add: cs_def js_def)
    have "drop (10 + length t) ((js ''w:t>'' @ t @ js ''</w:t>'') @ rest) = rest"
      by (rule drop_past) (simp add: js_def)
    then have d: "drop (10 + length t) cs = rest"
      by (simp only: cs_def append_assoc)
    have r: "rxTextRun (60 # cs) = Some (Suc (10 + length t), t)"
      using run unfolding x .
    show ?thesis
      unfolding x using r d by (rule matchAll_hit [where m = rxTextRun])
  qed
  then have texts: "matchAll rxTextRun ?xml = [t]"
    using assms(3) by (simp add: matchAll_no_close)
  have "matchAll rxParagraphOpen ?xml = matchAll rxParagraphOpen (js ''/w:t>'' @ rest)"
    using matchAll_skip [OF assms(1), of "js ''</w:t>'' @ rest"]
    by (simp add: js_def rxParagraphOpen_other rxParagraphOpen_def startsWith_def)
  also have "\<dots> = matchAll rxParagraphOpen rest"
    by (simp add: js_def rxParagraphOpen_other)
  finally have paras: "matchAll rxParagraphOpen ?xml = []"
    using assms(3) by (simp add: matchAll_no_close)
  show ?thesis
    by (simp add: scrapeDocx_def texts paras del: append.simps)
qed

lemma rxTextP_no_close: "62 \<notin> set s \<Longrightarrow> rxTextP s = None"
proof -
  assume "62 \<notin> set s"
  then have "62 \<notin> set (drop 7 s)" by (auto dest: in_set_dropD)
  then show ?thesis by (simp add: rxTextP_def upTo_absent)
qed

lemma matchAll_rxTextP_no_close: "62 \<notin> set s \<Longrightarrow> matchAll rxTextP s = []"
  by (induction s) (simp_all add: rxTextP_no_close)

lemma rxTag_other: "c \<noteq> 60 \<Longrightarrow> rxTag (c # s) = None"
  by (simp add: rxTag_def startsWith_def)

lemma replaceAll_rxTag_plain: "60 \<notin> set t \<Longrightarrow> replaceAll rxTag r t = t"
  by (induction t) (simp_all add: rxTag_other)

lemma paragraph_scraped:
  assumes "60 \<notin> set t" and "62 \<notin> set rest"
  shows "scrapeOdt (js ''<text:p>'' @ t @ js ''</text:p>'' @ rest) = toPlain (trim t)"
proof -
  let ?xml = "js ''<text:p>'' @ t @ js ''</text:p>'' @ rest"
  have lazy: "lazyUntil (\<lambda>c. True) (js ''</text:p>'') (t @ js ''</text:p>'' @ rest) = Some t"
    using assms(1) by (intro lazyUntil_found) (auto simp: js_def)
  have run: "rxTextP ?xml = Some (Suc (16 + length t), t)"
    using lazy by (simp add: rxTextP_def startsWith_def upTo_def js_def)
  have "matchAll rxTextP ?xml = t # matchAll rxTextP rest"
  proof -
    define cs where "cs = js ''text:p>'' @ t @ js ''</text:p>'' @ rest"
    have x: "?xml = 60 # cs"
      by (simp add: cs_def js_def)
    have "drop (16 + length t) ((js ''text:p>'' @ t @ js ''</text:p>'') @ rest) = rest"
      by (rule drop_past) (simp add: js_def)
    then have d: "drop (16 + length t) cs = rest"
      by (simp only: cs_def append_assoc)
    have r: "rxTextP (60 # cs) = Some (Suc (16 + length t), t)"
      using run unfolding x .
    show ?thesis
      unfolding x using r d by (rule matchAll_hit [where m = rxTextP])
  qed
  then have "matchAll rxTextP ?xml = [t]"
    using assms(2) by (simp add: matchAll_rxTextP_no_close)
  then show ?thesis
    using assms(1) by (simp add: scrapeOdt_def replaceAll_rxTag_plain del: append.simps)
qed

lemma unreadable_part_rejects:
  assumes "archive f = ZipLoaded entries"
    and "map_of entries (js ''word/document.xml'') = Some ReadRejects"
  shows "extractText d f DOCX = ([], Inl (Rejected JSZipRead))"
  using assms by (simp add: extractDocx_def)

text \<open>
  Claim C6, as stated, fails for a malformed part: the text runs that the pattern finds in
  it are returned.
\<close>

theorem malformed_part_counterexample:
  "endsInsideTag (js ''<w:t>hi</w:t><w:p'')
   \<and> extractText True
         (zipFile [(js ''word/document.xml'', ReadString (js ''<w:t>hi</w:t><w:p''))]) DOCX
       = ([], Inr (js ''hi''))
   \<and> js ''hi'' \<noteq> []"
  by (simp add: endsInsideTag_def zipFile_def extractDocx_def scrapeDocx_def js_def
      rxTextRun_def rxParagraphOpen_def startsWith_def upTo_def toPlain_def
      isLineTerminator_def)

text \<open>
  Claim C6, amended. For a DOCX or ODT file whose archive loads: when the main markup part
  is missing, or is read as the empty string, the extractor returns the empty string and
  no error; when the part is read as a non-empty string, well-formed or not, the extractor
  returns, with no error, what the patterns of the format scrape from it, and that need
  not be empty: a DOCX part made of a text run \<open><w:t>t</w:t>\<close>, where \<open>t\<close> has no
  \<open><\<close> and no line terminator, followed by any text without \<open>>\<close>, gives \<open>t\<close>
  without its NUL characters, and an ODT part made of a paragraph
  \<open><text:p>t</text:p>\<close>, where \<open>t\<close> has no \<open><\<close>, followed by any text without
  \<open>>\<close>, gives \<open>t\<close> trimmed, without its NUL characters.
\<close>

theorem markup_part_scraped:
  assumes "archive f = ZipLoaded entries"
  shows "((fmt = DOCX \<and> part = js ''word/document.xml'' \<or> fmt = ODT \<and> part = js ''content.xml'')
          \<and> (map_of entries part = None \<or> map_of entries part = Some (ReadString []))
          \<longrightarrow> extractText d f fmt = ([], Inr []))
    \<and> (map_of entries (js ''word/document.xml'') = Some (ReadString docXml) \<and> docXml \<noteq> []
          \<longrightarrow> extractText d f DOCX = ([], Inr (scrapeDocx docXml)))
    \<and> (map_of entries (js ''content.xml'') = Some (ReadString contentXml) \<and> contentXml \<noteq> []
          \<longrightarrow> extractText d f ODT = ([], Inr (scrapeOdt contentXml)))
    \<and> (map_of entries (js ''word/document.xml'')
            = Some (ReadString (js ''<w:t>'' @ t @ js ''</w:t>'' @ rest))
          \<and> 60 \<notin> set t \<and> (\<forall>c\<in>set t. \<not> isLineTerminator c) \<and> 62 \<notin> set rest
          \<longrightarrow> extractText d f DOCX = ([], Inr (toPlain t)))
    \<and> (map_of entries (js ''content.xml'')
            = Some (ReadString (js ''<text:p>'' @ t @ js ''</text:p>'' @ rest))
          \<and> 60 \<notin> set t \<and> 62 \<notin> set rest
          \<longrightarrow> extractText d f ODT = ([], Inr (toPlain (trim t))))"
proof (intro conjI impI)
  assume "(fmt = DOCX \<and> part = js ''word/document.xml'' \<or> fmt = ODT \<and> part = js ''content.xml'')
          \<and> (map_of entries part = None \<or> map_of entries part = Some (ReadString []))"
  then show "extractText d f fmt = ([], Inr [])"
    using assms by (auto simp: extractDocx_def extractOdt_def)
next
  assume "map_of entries (js ''word/document.xml'') = Some (ReadString docXml) \<and> docXml \<noteq> []"
  then show "extractText d f DOCX = ([], Inr (scrapeDocx docXml))"
    using assms by (simp add: extractDocx_def)
next
  assume "map_of entries (js ''content.xml'') = Some (ReadString contentXml) \<and> contentXml \<noteq> []"
  then show "extractText d f ODT = ([], Inr (scrapeOdt contentXml))"
    using assms by (simp add: extractOdt_def)
next
  assume a: "map_of entries (js ''word/document.xml'')
               = Some (ReadString (js ''<w:t>'' @ t @ js ''</w:t>'' @ rest))
             \<and> 60 \<notin> set t \<and> (\<forall>c\<in>set t. \<not> isLineTerminator c) \<and> 62 \<notin> set rest"
  then have "scrapeDocx (js ''<w:t>'' @ t @ js ''</w:t>'' @ rest) = toPlain t"
    by (intro text_run_scraped) simp_all
  moreover have "js ''<w:t>'' \<noteq> []"
    by (simp add: js_def)
  ultimately show "extractText d f DOCX = ([], Inr (toPlain t))"
    using assms a by (simp add: extractDocx_def del: append.simps)
next
  assume a: "map_of entries (js ''content.xml'')
               = Some (ReadString (js ''<text:p>'' @ t @ js ''</text:p>'' @ rest))
             \<and> 60 \<notin> set t \<and> 62 \<notin> set rest"
  then have "scrapeOdt (js ''<text:p>'' @ t @ js ''</text:p>'' @ rest) = toPlain (trim t)"
    by (intro paragraph_scraped) simp_all
  moreover have "js ''<text:p>'' \<noteq> []"
    by (simp add: js_def)
  ultimately show "extractText d f ODT = ([], Inr (toPlain (trim t)))"
    using assms a by (simp add: extractOdt_def del: append.simps)
qed

theorem markup_part_scraped_witness:
  "extractText True (zipFile [(js ''styles.xml'', ReadString (js ''<a/>''))]) DOCX = ([], Inr [])
   \<and> extractText True (zipFile [(js ''content.xml'', ReadString [])]) ODT = ([], Inr [])
   \<and> extractText True
        (zipFile [(js ''word/document.xml'', ReadString (js ''<w:t>'' @ js ''hi'' @ js ''</w:t>'' @ js ''<w:p''))])
        DOCX = ([], Inr (js ''hi''))
   \<and> extractText True
        (zipFile [(js ''content.xml'', ReadString (js ''<text:p>'' @ js '' hi '' @ js ''</text:p>'' @ js ''<text:p''))])
        ODT = ([], Inr (js ''hi''))"
proof -
  have a: "archive (zipFile es) = ZipLoaded es" for es
    by (simp add: zipFile_def)
  have b: "map_of [(js ''styles.xml'', ReadString (js ''<a/>''))] (js ''word/document.xml'') = None"
    by (simp add: js_def)
  have c: "map_of [(js ''content.xml'', ReadString [])] (js ''content.xml'') = Some (ReadString [])"
    by simp
  have t1: "60 \<notin> set (js ''hi'')" "\<forall>c\<in>set (js ''hi''). \<not> isLineTerminator c"
    "62 \<notin> set (js ''<w:p'')" "toPlain (js ''hi'') = js ''hi''"
    by (simp_all add: js_def isLineTerminator_def toPlain_def)
  have t2: "60 \<notin> set (js '' hi '')" "62 \<notin> set (js ''<text:p'')"
    "toPlain (trim (js '' hi '')) = js ''hi''"
    by (simp_all add: js_def trim_def isWhiteSpace_def toPlain_def)
  have "extractText True (zipFile [(js ''styles.xml'', ReadString (js ''<a/>''))]) DOCX = ([], Inr [])"
    using markup_part_scraped [OF a, where fmt = DOCX and part = "js ''word/document.xml''"
        and d = True] b
    by blast
  moreover
  have "extractText True (zipFile [(js ''content.xml'', ReadString [])]) ODT = ([], Inr [])"
    using markup_part_scraped [OF a, where fmt = ODT and part = "js ''content.xml''"
        and d = True] c
    by blast
  moreover
  have "extractText True
          (zipFile [(js ''word/document.xml'', ReadString (js ''<w:t>'' @ js ''hi'' @ js ''</w:t>'' @ js ''<w:p''))])
          DOCX = ([], Inr (js ''hi''))"
    using markup_part_scraped [OF a, where t = "js ''hi''" and rest = "js ''<w:p''" and d = True,
        THEN conjunct2, THEN conjunct2, THEN conjunct2, THEN conjunct1] t1
    by simp
  moreover
  have "extractText True
          (zipFile [(js ''content.xml'', ReadString (js ''<text:p>'' @ js '' hi '' @ js ''</text:p>'' @ js ''<text:p''))])
          ODT = ([], Inr (js ''hi''))"
    using markup_part_scraped [OF a, where t = "js '' hi ''" and rest = "js ''<text:p''"
        and d = True, THEN conjunct2, THEN conjunct2, THEN conjunct2, THEN conjunct2] t2
    by simp
  ultimately show ?thesis by blast
qed

section \<open>Properties of the client-side conversion\<close>

lemma trim_Nil: "trim [] = []"
  by (simp add: trim_def)

lemma header_not_Nil: "header e f source target \<noteq> []"
  by (simp add: header_def js_def)

lemma placeholder_not_Nil: "placeholder \<noteq> []"
  by (simp add: placeholder_def js_def)

lemma fullText_more: "fullText hdr text \<noteq> hdr"
  using trim_Nil placeholder_not_Nil by (auto simp: fullText_def)

lemma convertDocument_client:
  assumes "\<not> useServer e" and "\<not> (source = PDF \<and> target = DOCX \<and> preserveLayout e)"
  shows "convertDocument e f source target = clientConvert e f source target"
  using assms by (auto simp: convertDocument_def)

text \<open>
  Claim C10. A client-side conversion outside the layout-preserving path builds its
  artifact from a text that is neither empty nor the header alone; when the extracted text
  is empty or white space only, that text is the header followed by the placeholder.
\<close>

theorem empty_text_placeholder:
  assumes "\<not> useServer e" and "\<not> (source = PDF \<and> target = DOCX \<and> preserveLayout e)"
    and "extractText (hasDocument e) f source = (evs, Inr text)"
  shows "\<exists>full. convertDocument e f source target
                  = (evs, buildDocument (widthOfTextAtSize e) target full)
           \<and> full \<noteq> [] \<and> full \<noteq> header e f source target
           \<and> (trim text = [] \<longrightarrow> full = header e f source target @ placeholder)"
proof (intro exI conjI)
  show "convertDocument e f source target
          = (evs, buildDocument (widthOfTextAtSize e) target
                    (fullText (header e f source target) text))"
    using assms by (simp add: convertDocument_client clientConvert_def)
  show "fullText (header e f source target) text \<noteq> []"
    using header_not_Nil [of e f source target] by (simp add: fullText_def)
  show "fullText (header e f source target) text \<noteq> header e f source target"
    by (rule fullText_more)
  show "trim text = [] \<longrightarrow>
          fullText (header e f source target) text = header e f source target @ placeholder"
    by (simp add: fullText_def)
qed

theorem empty_text_placeholder_witness:
  "convertDocument (clientEnv (js ''1/1/2026'')) (txtFile (js ''  '')) TXT RTF
     = ([], Inr (Blob (Text (buildRtf (header (clientEnv (js ''1/1/2026'')) (txtFile (js ''  '')) TXT RTF @ placeholder)))
                 (js ''application/rtf'')))"
proof -
  let ?e = "clientEnv (js ''1/1/2026'')" and ?f = "txtFile (js ''  '')"
  have a: "\<not> useServer ?e" "\<not> (TXT = PDF \<and> RTF = DOCX \<and> preserveLayout ?e)"
    by (simp_all add: clientEnv_def)
  have b: "extractText (hasDocument ?e) ?f TXT = ([], Inr (js ''  ''))"
    by (simp add: txtFile_def)
  have c: "trim (js ''  '') = []"
    by (simp add: trim_def js_def isWhiteSpace_def)
  from empty_text_placeholder [OF a b] c show ?thesis
    by (auto simp: clientEnv_def)
qed

text \<open>
  Claim C5, as stated, fails: the header holds the date and time of the conversion, so two
  runs on the same file at different seconds differ.
\<close>

theorem txt_date_counterexample:
  "convertDocument (clientEnv (js ''1/1/2026, 10:00:00 AM'')) (txtFile (js ''hi'')) TXT TXT
     \<noteq> convertDocument (clientEnv (js ''1/1/2026, 10:00:01 AM'')) (txtFile (js ''hi'')) TXT TXT"
  by (simp add: convertDocument_def clientConvert_def clientEnv_def txtFile_def fullText_def header_def js_def)

text \<open>
  Claim C5, amended. Two client-side conversions of the same TXT file to TXT give the same
  output when the date string of the header is the same, and in any case the same text
  after their headers.
\<close>

theorem txt_repeatable:
  assumes "\<not> useServer e1" and "\<not> useServer e2"
  shows "(now e1 = now e2 \<longrightarrow> convertDocument e1 f TXT TXT = convertDocument e2 f TXT TXT)
         \<and> (\<exists>text. convertDocument e1 f TXT TXT
                      = ([], Inr (Blob (Text (header e1 f TXT TXT @ text)) (getMimeType TXT)))
                  \<and> convertDocument e2 f TXT TXT
                      = ([], Inr (Blob (Text (header e2 f TXT TXT @ text)) (getMimeType TXT))))"
  using assms
  by (auto simp: convertDocument_client clientConvert_def fullText_def header_def)

theorem txt_repeatable_witness:
  "convertDocument (clientEnv (js ''1/1/2026'')) (txtFile (js ''hi'')) TXT TXT
     = convertDocument ((clientEnv (js ''1/1/2026'')) \<lparr>preserveLayout := True\<rparr>) (txtFile (js ''hi'')) TXT TXT"
proof -
  let ?e1 = "clientEnv (js ''1/1/2026'')"
  let ?e2 = "(clientEnv (js ''1/1/2026'')) \<lparr>preserveLayout := True\<rparr>"
  have a: "\<not> useServer ?e1" "\<not> useServer ?e2" "now ?e1 = now ?e2"
    by (simp_all add: clientEnv_def)
  from txt_repeatable [OF a(1,2), of "txtFile (js ''hi'')"] a(3) show ?thesis
    by blast
qed

text \<open>
  Claim C4, as stated, fails: NUL characters of the text layer are removed from the
  extracted text.
\<close>

theorem nul_removed_counterexample:
  "pdf (pdfFile [nulPage]) = PdfLoaded [nulPage] \<and> \<not> needsOCR (textLayer nulPage)
   \<and> snd (extractText True (pdfFile [nulPage]) PDF)
       \<noteq> Inr (joinWith (nl @ nl) (map textLayer [nulPage]))"
  by (simp add: pdfFile_def nulPage_def textPage_def textLayer_def needsOCR_def trim_def
      alnumCount_def js_def isWhiteSpace_def isAlnum_def isLetter_def isDigit_def toPlain_def
      Let_def)

text \<open>
  Claim C4, amended. For a PDF with at least one page whose pages all have a full text
  layer, the extractor returns the text layers joined by blank lines, in page order, with
  the NUL characters removed (the joined text itself when no page holds one), and the
  client-side conversion to TXT gives the header followed by that text.
\<close>

theorem text_layer_extraction:
  assumes "pdf f = PdfLoaded pages" and "pages \<noteq> []"
    and "\<forall>p\<in>set pages. \<not> needsOCR (textLayer p)" and "\<not> useServer e"
  shows "extractText d f PDF = ([], Inr (toPlain (joinWith (nl @ nl) (map textLayer pages))))
    \<and> convertDocument e f PDF TXT
        = ([], Inr (Blob (Text (header e f PDF TXT
                                  @ toPlain (joinWith (nl @ nl) (map textLayer pages))))
                      (getMimeType TXT)))
    \<and> ((\<forall>p\<in>set pages. 0 \<notin> set (textLayer p)) \<longrightarrow>
          toPlain (joinWith (nl @ nl) (map textLayer pages))
            = joinWith (nl @ nl) (map textLayer pages))"
proof (intro conjI impI)
  have "extractPages h 1 (length pages) pages = ([], joinWith (nl @ nl) (map textLayer pages))"
    for h
    using assms(3) by (intro extractPages_text_layer) simp_all
  then have ex: "extractText h f PDF
                   = ([], Inr (toPlain (joinWith (nl @ nl) (map textLayer pages))))" for h
    using assms(1) by (simp add: Let_def)
  then show "extractText d f PDF
               = ([], Inr (toPlain (joinWith (nl @ nl) (map textLayer pages))))" .
  show "convertDocument e f PDF TXT
        = ([], Inr (Blob (Text (header e f PDF TXT
                                  @ toPlain (joinWith (nl @ nl) (map textLayer pages))))
                      (getMimeType TXT)))"
    using assms(4) text_layer_not_blank [OF assms(2,3)]
    by (simp add: convertDocument_client clientConvert_def ex fullText_def del: extractText.simps)
next
  assume "\<forall>p\<in>set pages. 0 \<notin> set (textLayer p)"
  then have "0 \<notin> set (joinWith (nl @ nl) (map textLayer pages))"
    using set_joinWith_subset [of "nl @ nl" "map textLayer pages"] by (auto simp: nl_def)
  then show "toPlain (joinWith (nl @ nl) (map textLayer pages))
               = joinWith (nl @ nl) (map textLayer pages)"
    by (rule toPlain_id)
qed

theorem text_layer_extraction_witness:
  "extractText True (pdfFile [foxPage, dogPage]) PDF
     = ([], Inr (js ''The quick brown fox jumps'' @ nl @ nl @ js ''over the lazy dog today.''))
   \<and> convertDocument (clientEnv (js ''1/1/2026'')) (pdfFile [foxPage, dogPage]) PDF TXT
     = ([], Inr (Blob (Text (header (clientEnv (js ''1/1/2026'')) (pdfFile [foxPage, dogPage]) PDF TXT
                 @ js ''The quick brown fox jumps'' @ nl @ nl @ js ''over the lazy dog today.''))
                 (js ''text/plain'')))"
proof -
  let ?f = "pdfFile [foxPage, dogPage]"
  have a: "pdf ?f = PdfLoaded [foxPage, dogPage]" "[foxPage, dogPage] \<noteq> []"
    by (simp_all add: pdfFile_def)
  have b: "\<forall>p\<in>set [foxPage, dogPage]. \<not> needsOCR (textLayer p)"
    using fox_full dog_full by simp
  have c: "\<not> useServer (clientEnv (js ''1/1/2026''))"
    by (simp add: clientEnv_def)
  have d: "\<forall>p\<in>set [foxPage, dogPage]. 0 \<notin> set (textLayer p)"
    by (simp add: fox_text dog_text js_def)
  from text_layer_extraction [OF a b c, of True] d show ?thesis
    by (simp add: fox_text dog_text)
qed

section \<open>Properties of the conversion endpoint\<close>

text \<open>
  Claim C8. A request whose target extension is .docx or .odt (in any case of letters) and
  whose source is PDF, by its source extension or, when none is sent, by the name of the
  uploaded file, is answered with status 400 and no conversion is started; when the
  request carries a file, the answer is the error of the unsupported pair.
\<close>

theorem endpoint_rejects_pdf:
  assumes "map_of form (js ''targetExt'') = Some (Str t)"
    and "toLowerCase t = js ''.docx'' \<or> toLowerCase t = js ''.odt''"
    and "(\<exists>s. map_of form (js ''sourceExt'') = Some (Str s) \<and> toLowerCase s = js ''.pdf'')
         \<or> (map_of form (js ''sourceExt'') = None
             \<and> (\<exists>n b. map_of form (js ''file'') = Some (Upload n b)
                        \<and> endsWith (js ''.pdf'') (toLowerCase n)))"
  shows "fst (POST sv (Form form)) = []
         \<and> http_status (snd (POST sv (Form form))) = 400
         \<and> ((\<exists>n b. map_of form (js ''file'') = Some (Upload n b)) \<longrightarrow>
              http_body (snd (POST sv (Form form))) = Json pdfUnsupported None)"
proof -
  have ne: "toLowerCase t \<noteq> []"
    using assms(2) by (auto simp: js_def)
  show ?thesis
    using assms ne
    by (auto simp: POST_def lowerField_def json_def
        split: option.splits form_value.splits)
qed

theorem endpoint_rejects_pdf_witness:
  "POST sampleServer (Form pdfToDocxForm) = ([], json 400 pdfUnsupported None)"
proof -
  have a: "map_of pdfToDocxForm (js ''targetExt'') = Some (Str (js ''.DOCX''))"
    by (simp add: pdfToDocxForm_def js_def)
  have b: "toLowerCase (js ''.DOCX'') = js ''.docx'' \<or> toLowerCase (js ''.DOCX'') = js ''.odt''"
    by (simp add: toLowerCase_def lowerChar_def js_def)
  have c: "map_of pdfToDocxForm (js ''sourceExt'') = Some (Str (js ''.pdf''))"
    "toLowerCase (js ''.pdf'') = js ''.pdf''"
    by (simp_all add: pdfToDocxForm_def toLowerCase_def lowerChar_def js_def)
  have d: "map_of pdfToDocxForm (js ''file'') = Some (Upload (js ''report.pdf'') [37, 80, 68, 70])"
    by (simp add: pdfToDocxForm_def js_def)
  from c have c': "(\<exists>s. map_of pdfToDocxForm (js ''sourceExt'') = Some (Str s) \<and> toLowerCase s = js ''.pdf'')
         \<or> (map_of pdfToDocxForm (js ''sourceExt'') = None
             \<and> (\<exists>n b. map_of pdfToDocxForm (js ''file'') = Some (Upload n b)
                        \<and> endsWith (js ''.pdf'') (toLowerCase n)))"
    by blast
  from endpoint_rejects_pdf [OF a b c', of sampleServer] d
  show ?thesis
    by (cases "POST sampleServer (Form pdfToDocxForm)") (auto simp: json_def)
qed

end
